theory Spec2Isabelle
  imports
    Complex_Main
    "HOL-Library.Sublist"
    "HOL-Library.Char_ord"
    "HOL-Library.List_Lexorder"
begin

section \<open>Data model (src/utils/table-helpers.ts, lines 1-16)\<close>

text \<open>
  A JavaScript string is modelled as a \<^typ>\<open>string\<close>: a list of code units, compared
  unit by unit. The units are the 256 values of \<^typ>\<open>char\<close>, read as the code units
  \<open>U+0000\<close> to \<open>U+00FF\<close> (Basic Latin and Latin-1 Supplement); the primitives below are
  modelled in full on them. The nested objects \<open>name\<close> and \<open>dob\<close> of the interface \<open>User\<close> are
  records of their own. The field \<open>name.last\<close> is called \<open>last_name\<close>, since \<open>last\<close> is a
  constant of the list library. The age is an integer, as the record source delivers it.
\<close>

record UserName =
  title :: string
  first :: string
  last_name :: string

record UserDob =
  date :: string
  age :: int

record User =
  gender :: string
  name :: UserName
  email :: string
  dob :: UserDob

datatype SortKey = NameFirst | Gender | DobAge | Email

datatype SortDirection = Asc | Desc

text \<open>
  The object \<open>{key, direction}\<close>. The source uses it at two types: \<open>sortUsers\<close> takes a
  direction of type \<open>SortDirection\<close>, which has the third value \<open>null\<close> (here \<open>None\<close>), and the
  component's state holds a direction that is \<open>"asc"\<close> or \<open>"desc"\<close> only.
\<close>

record 'd SortConfig =
  key :: SortKey
  direction :: 'd


section \<open>String primitives of the host language\<close>

text \<open>
  \<open>String.prototype.trim\<close> removes white space and line terminators from both ends. Among
  the code units modelled here these are tab, line feed, vertical tab, form feed, carriage
  return, space and the no-break space \<open>U+00A0\<close>.
\<close>

definition is_space :: "char \<Rightarrow> bool" where
  "is_space c =
     (c \<in> set [CHR 0x09, CHR 0x0A, CHR 0x0B, CHR 0x0C, CHR 0x0D, CHR 0x20, CHR 0xA0])"

definition trim :: "string \<Rightarrow> string" where
  "trim s = rev (dropWhile is_space (rev (dropWhile is_space s)))"

text \<open>\<open>s.includes(q)\<close>: \<open>q\<close> occurs in \<open>s\<close> as a contiguous block.\<close>

fun str_includes :: "string \<Rightarrow> string \<Rightarrow> bool" where
  "str_includes [] q = (q = [])"
| "str_includes (c # cs) q = (prefix q (c # cs) \<or> str_includes cs q)"

text \<open>\<open>Number.prototype.toString\<close> on an integer: its decimal digits, after a minus sign
  when it is negative.\<close>

definition digit_char :: "nat \<Rightarrow> char" where
  "digit_char d = char_of (48 + d)"

function digits :: "nat \<Rightarrow> string" where
  "digits n = (if n < 10 then [digit_char n] else digits (n div 10) @ [digit_char (n mod 10)])"
  by pat_completeness auto
termination
  by (relation "measure (\<lambda>n. n)") auto

declare digits.simps [simp del]

definition toString :: "int \<Rightarrow> string" where
  "toString i = (if i < 0 then CHR ''-'' # digits (nat (- i)) else digits (nat i))"

text \<open>
  \<open>String.prototype.toLowerCase\<close>. Among the code units modelled here the capital letters
  are \<open>A\<close> to \<open>Z\<close> (\<open>U+0041\<close> to \<open>U+005A\<close>) and the Latin-1 capitals \<open>U+00C0\<close> to \<open>U+00DE\<close>
  without the multiplication sign \<open>U+00D7\<close>; the small letter of each lies 32 places
  further on. Every other code unit is kept.
\<close>

definition lower_char :: "char \<Rightarrow> char" where
  "lower_char c =
     (let n = (of_char c :: nat)
      in if (65 \<le> n \<and> n \<le> 90) \<or> (192 \<le> n \<and> n \<le> 222 \<and> n \<noteq> 215)
         then char_of (n + 32) else c)"

definition toLowerCase :: "string \<Rightarrow> string" where
  "toLowerCase s = map lower_char s"


section \<open>Filter stage (\<open>filterUsers\<close>, lines 18-43)\<close>

text \<open>The predicate handed to \<open>users.filter\<close>, with the trimmed query as \<open>searchStr\<close>.\<close>

definition userMatches :: "string \<Rightarrow> User \<Rightarrow> bool" where
  "userMatches searchStr user =
     (let firstName = first (name user);
          lastName = last_name (name user);
          fullName = firstName @ '' '' @ lastName;
          genderMatch = (if searchStr = ''male'' then gender user = ''male''
                         else str_includes (gender user) searchStr)
      in str_includes firstName searchStr \<or>
         str_includes lastName searchStr \<or>
         str_includes fullName searchStr \<or>
         genderMatch \<or>
         str_includes (email user) searchStr \<or>
         str_includes (toString (age (dob user))) searchStr)"

definition filterUsers :: "User list \<Rightarrow> string \<Rightarrow> User list" where
  "filterUsers users query =
     (let searchStr = trim query
      in if searchStr = [] then users else filter (userMatches searchStr) users)"


section \<open>Sort stage (\<open>getSortValue\<close> and \<open>sortUsers\<close>, lines 48-76)\<close>

text \<open>The result type \<open>string | number\<close> of \<open>getSortValue\<close>.\<close>

datatype sort_value = Str string | Num int

text \<open>The \<open>default\<close> branch of the \<open>switch\<close> has no value of \<open>SortKey\<close> left to match.\<close>

fun getSortValue :: "User \<Rightarrow> SortKey \<Rightarrow> sort_value" where
  "getSortValue user NameFirst = Str (toLowerCase (first (name user)))"
| "getSortValue user Gender = Str (toLowerCase (gender user))"
| "getSortValue user DobAge = Num (age (dob user))"
| "getSortValue user Email = Str (toLowerCase (email user))"

text \<open>
  The operator \<open><\<close> of the host language: on two strings the lexicographic order of their
  code units, on two numbers the numeric order. \<open>a > b\<close> is \<open>js_lt b a\<close>. Within one sort both
  operands come from the same key, so a string never meets a number; those two cases are
  given the value \<open>False\<close> and no theorem below reaches them.
\<close>

fun js_lt :: "sort_value \<Rightarrow> sort_value \<Rightarrow> bool" where
  "js_lt (Str a) (Str b) = (a < b)"
| "js_lt (Num a) (Num b) = (a < b)"
| "js_lt (Str a) (Num b) = False"
| "js_lt (Num a) (Str b) = False"

text \<open>The comparator closure of lines 68-75, for a direction that passed the guard of line 66.\<close>

definition compareUsers :: "SortKey \<Rightarrow> SortDirection \<Rightarrow> User \<Rightarrow> User \<Rightarrow> int" where
  "compareUsers k d a b =
     (let aValue = getSortValue a k;
          bValue = getSortValue b k
      in if js_lt aValue bValue then (if d = Asc then - 1 else 1)
         else if js_lt bValue aValue then (if d = Asc then 1 else - 1)
         else 0)"

text \<open>
  \<open>sortUsers\<close> with the sort primitive of the host as a parameter: the primitive receives the
  comparator and a copy of the list. Of the guard \<open>!direction || !key\<close> only the first half
  can hold: every value of \<open>SortKey\<close> is a string that is not empty.
\<close>

definition sortUsers_with ::
  "((User \<Rightarrow> User \<Rightarrow> int) \<Rightarrow> User list \<Rightarrow> User list) \<Rightarrow>
   User list \<Rightarrow> SortDirection option SortConfig \<Rightarrow> User list" where
  "sortUsers_with srt users sortConfig =
     (case direction sortConfig of
        None \<Rightarrow> users
      | Some d \<Rightarrow> srt (compareUsers (key sortConfig) d) users)"

text \<open>
  \<open>Array.prototype.sort\<close> with a comparator, as ECMAScript 2019 and later require it: the
  result is ordered by the comparator, and elements that compare equal keep their order.
  For a consistent comparator that result is unique; it is computed here by insertion from
  the right, each element going before the first one it does not compare greater than.
\<close>

fun insert_by :: "('a \<Rightarrow> 'a \<Rightarrow> int) \<Rightarrow> 'a \<Rightarrow> 'a list \<Rightarrow> 'a list" where
  "insert_by cmp x [] = [x]"
| "insert_by cmp x (y # ys) = (if cmp x y \<le> 0 then x # y # ys else y # insert_by cmp x ys)"

definition array_sort :: "('a \<Rightarrow> 'a \<Rightarrow> int) \<Rightarrow> 'a list \<Rightarrow> 'a list" where
  "array_sort cmp xs = foldr (insert_by cmp) xs []"

definition sortUsers :: "User list \<Rightarrow> SortDirection option SortConfig \<Rightarrow> User list" where
  "sortUsers = sortUsers_with array_sort"

text \<open>
  A sort primitive as the editions of the language before 2019 allowed it: it orders by the
  comparator too, but an element goes behind the ones it compares equal to.
\<close>

fun insert_behind :: "('a \<Rightarrow> 'a \<Rightarrow> int) \<Rightarrow> 'a \<Rightarrow> 'a list \<Rightarrow> 'a list" where
  "insert_behind cmp x [] = [x]"
| "insert_behind cmp x (y # ys) =
     (if cmp x y < 0 then x # y # ys else y # insert_behind cmp x ys)"

definition array_sort_unstable :: "('a \<Rightarrow> 'a \<Rightarrow> int) \<Rightarrow> 'a list \<Rightarrow> 'a list" where
  "array_sort_unstable cmp xs = foldr (insert_behind cmp) xs []"

text \<open>The order \<open>\<le>\<close> on derived keys of one kind, which the proofs about the sort use.\<close>

fun key_le :: "sort_value \<Rightarrow> sort_value \<Rightarrow> bool" where
  "key_le (Str a) (Str b) = (a \<le> b)"
| "key_le (Num a) (Num b) = (a \<le> b)"
| "key_le (Str a) (Num b) = False"
| "key_le (Num a) (Str b) = False"


section \<open>Pagination stage (\<open>paginateData\<close>, lines 81-84)\<close>

text \<open>
  \<open>Array.prototype.slice(start, end)\<close> on integers: a negative bound counts from the end of
  the array, both bounds are cut to the range from \<open>0\<close> to the length, and an empty range
  gives the empty array. It never throws.
\<close>

definition js_slice :: "'a list \<Rightarrow> int \<Rightarrow> int \<Rightarrow> 'a list" where
  "js_slice xs start end =
     (let len = int (length xs);
          k = (if start < 0 then max (len + start) 0 else min start len);
          final = (if end < 0 then max (len + end) 0 else min end len);
          count = max (final - k) 0
      in take (nat count) (drop (nat k) xs))"

definition slice_start :: "int \<Rightarrow> int \<Rightarrow> int" where
  "slice_start page pageSize = (page - 1) * pageSize"

definition paginateData :: "'a list \<Rightarrow> int \<Rightarrow> int \<Rightarrow> 'a list" where
  "paginateData data page pageSize =
     (let start = slice_start page pageSize in js_slice data start (start + pageSize))"

text \<open>\<open>Math.ceil(sortedUsers.length / pageSize)\<close> (DataTable.tsx, line 103), for a positive
  page size.\<close>

definition totalPages :: "nat \<Rightarrow> nat \<Rightarrow> nat" where
  "totalPages len pageSize = nat \<lceil>real len / real pageSize\<rceil>"


section \<open>View state (src/components/DataTable.tsx)\<close>

text \<open>
  The state cells of lines 40-46, and the timer of the debounce effect (lines 50-56): \<open>timer\<close>
  is \<open>Some q\<close> while a timeout is pending whose callback has captured the query \<open>q\<close>.
\<close>

record ViewState =
  searchQuery :: string
  debouncedQuery :: string
  sortConfig :: "SortDirection SortConfig"
  currentPage :: int
  timer :: "string option"

text \<open>The state after the first render: the effect has run once and holds a timer.\<close>

definition initialView :: ViewState where
  "initialView =
     \<lparr>searchQuery = [], debouncedQuery = [],
      sortConfig = \<lparr>key = NameFirst, direction = Asc\<rparr>,
      currentPage = 1, timer = Some []\<rparr>"

text \<open>
  The \<open>onChange\<close> handler of the search input (lines 126-129) followed by the effect it
  triggers: when the query has changed, the cleanup clears the pending timeout and a new one
  is started with the new query.
\<close>

definition setQuery :: "string \<Rightarrow> ViewState \<Rightarrow> ViewState" where
  "setQuery newQuery s =
     s\<lparr>searchQuery := newQuery,
       currentPage := 1,
       timer := (if newQuery = searchQuery s then timer s else Some newQuery)\<rparr>"

text \<open>The callback of the timeout (line 52), run when 300 ms have passed without a change.\<close>

definition debounceElapsed :: "ViewState \<Rightarrow> ViewState" where
  "debounceElapsed s =
     (case timer s of
        None \<Rightarrow> s
      | Some q \<Rightarrow> s\<lparr>debouncedQuery := q, timer := None\<rparr>)"

text \<open>\<open>handleSort\<close> (lines 82-88).\<close>

definition handleSort :: "SortKey \<Rightarrow> ViewState \<Rightarrow> ViewState" where
  "handleSort k s =
     s\<lparr>sortConfig :=
         \<lparr>key = k,
          direction = (if key (sortConfig s) = k \<and> direction (sortConfig s) = Asc
                       then Desc else Asc)\<rparr>,
       currentPage := 1\<rparr>"

text \<open>The two pagination buttons (lines 226-247); a disabled button does nothing.\<close>

definition previousPage :: "ViewState \<Rightarrow> ViewState" where
  "previousPage s =
     (if currentPage s = 1 then s else s\<lparr>currentPage := max (currentPage s - 1) 1\<rparr>)"

definition nextPage :: "int \<Rightarrow> ViewState \<Rightarrow> ViewState" where
  "nextPage pages s =
     (if currentPage s = pages \<or> pages = 0 then s
      else s\<lparr>currentPage := min (currentPage s + 1) pages\<rparr>)"


section \<open>Fetch coordinator (\<open>fetchUsers\<close>, lines 58-80)\<close>

record FetchState =
  users :: "User list"
  loading :: bool
  error :: "string option"

definition initialFetch :: FetchState where
  "initialFetch = \<lparr>users = [], loading = True, error = None\<rparr>"

text \<open>A thrown value: an \<open>Error\<close> object with its name and message, or anything else.\<close>

datatype thrown = ErrorObject string string | OtherValue

text \<open>
  How the two awaited promises settle: \<open>fetch\<close> rejects, or resolves to a response with its
  \<open>ok\<close> flag, whose \<open>json()\<close> rejects or resolves to the parsed \<open>results\<close>. Aborting the controller
  rejects the pending promise with an error named \<open>AbortError\<close>.
\<close>

datatype json_outcome = JsonRejected thrown | JsonResolved "User list"

datatype fetch_outcome = FetchRejected thrown | FetchResolved bool json_outcome

definition abortError :: thrown where
  "abortError = ErrorObject ''AbortError'' ''The user aborted a request.''"

text \<open>The \<open>try\<close> block (lines 63-68): it ends in a throw (\<open>Inl\<close>) or with the state updated.\<close>

definition fetchUsers_try :: "fetch_outcome \<Rightarrow> FetchState \<Rightarrow> thrown + FetchState" where
  "fetchUsers_try outcome s =
     (case outcome of
        FetchRejected err \<Rightarrow> Inl err
      | FetchResolved ok body \<Rightarrow>
          if \<not> ok then Inl (ErrorObject ''Error'' ''Failed to fetch data'')
          else (case body of
                  JsonRejected err \<Rightarrow> Inl err
                | JsonResolved results \<Rightarrow> Inr (s\<lparr>users := results\<rparr>)))"

text \<open>The \<open>catch\<close> block (lines 70-71).\<close>

fun fetchUsers_catch :: "thrown \<Rightarrow> FetchState \<Rightarrow> FetchState" where
  "fetchUsers_catch (ErrorObject nm msg) s =
     (if nm = ''AbortError'' then s else s\<lparr>error := Some msg\<rparr>)"
| "fetchUsers_catch OtherValue s = s\<lparr>error := Some ''An error occurred''\<rparr>"

text \<open>The \<open>finally\<close> block (line 73): it runs on every way out of \<open>try\<close> and \<open>catch\<close>, the
  \<open>return\<close> of line 70 included.\<close>

definition fetchUsers_finally :: "FetchState \<Rightarrow> FetchState" where
  "fetchUsers_finally s = s\<lparr>loading := False\<rparr>"

definition fetchUsers :: "fetch_outcome \<Rightarrow> FetchState \<Rightarrow> FetchState" where
  "fetchUsers outcome s =
     fetchUsers_finally
       (case fetchUsers_try outcome s of
          Inl err \<Rightarrow> fetchUsers_catch err s
        | Inr s' \<Rightarrow> s')"


text \<open>
  The events of the view, to state what holds in every state the view can reach: the number
  of pages shown beside the \<open>Next\<close> button comes with the click.
\<close>

datatype view_event =
    SetQuery string
  | DebounceElapsed
  | HandleSort SortKey
  | PreviousPage
  | NextPage int

fun apply_event :: "ViewState \<Rightarrow> view_event \<Rightarrow> ViewState" where
  "apply_event s (SetQuery q) = setQuery q s"
| "apply_event s DebounceElapsed = debounceElapsed s"
| "apply_event s (HandleSort k) = handleSort k s"
| "apply_event s PreviousPage = previousPage s"
| "apply_event s (NextPage pages) = nextPage pages s"

definition run_view :: "view_event list \<Rightarrow> ViewState" where
  "run_view evs = foldl apply_event initialView evs"

text \<open>A pending timeout holds the query of the render that started it.\<close>

definition timer_consistent :: "ViewState \<Rightarrow> bool" where
  "timer_consistent s = (case timer s of None \<Rightarrow> True | Some q \<Rightarrow> q = searchQuery s)"


section \<open>Sample records\<close>

definition mkUser :: "string \<Rightarrow> string \<Rightarrow> string \<Rightarrow> string \<Rightarrow> int \<Rightarrow> User" where
  "mkUser g f l e a =
     \<lparr>gender = g, name = \<lparr>title = [], first = f, last_name = l\<rparr>, email = e,
      dob = \<lparr>date = [], age = a\<rparr>\<rparr>"

definition amy :: User where
  "amy = mkUser ''female'' ''Amy'' ''Lee'' ''a@x.com'' 30"

definition bo :: User where
  "bo = mkUser ''male'' ''Bo'' ''Ray'' ''b@x.com'' 25"

definition amy_poe :: User where
  "amy_poe = mkUser ''female'' ''Amy'' ''Poe'' ''amy.poe@x.com'' 52"

definition malena :: User where
  "malena = mkUser ''female'' ''Malena'' ''Cruz'' ''malena.cruz@example.com'' 41"

text \<open>Four records with a Latin-1 letter in the first name: \<open>U+00E9\<close> is the small and
  \<open>U+00C9\<close> the capital e with acute accent.\<close>

definition emile_small :: User where
  "emile_small = mkUser ''male'' (CHR 0xE9 # ''mile'') ''Roy'' ''e1@x.com'' 33"

definition emile_capital :: User where
  "emile_capital = mkUser ''male'' (CHR 0xC9 # ''mile'') ''Blanc'' ''e2@x.com'' 44"

definition ea_small :: User where
  "ea_small = mkUser ''female'' (CHR 0xE9 # ''a'') ''Petit'' ''ea@x.com'' 28"

definition ez_capital :: User where
  "ez_capital = mkUser ''female'' (CHR 0xC9 # ''z'') ''Morel'' ''ez@x.com'' 61"

definition zed :: User where
  "zed = mkUser ''male'' ''Zed'' ''Hall'' ''zed@x.com'' 19"

definition twelve :: "nat list" where
  "twelve = [0, 1, 2, 3, 4, 5, 6, 7, 8, 9, 10, 11]"

lemmas sample_defs = mkUser_def amy_def bo_def amy_poe_def malena_def
  emile_small_def emile_capital_def ea_small_def ez_capital_def zed_def


section \<open>Facts about the string primitives\<close>

lemma str_includes_sublist: "str_includes s q = sublist q s"
  by (induction s) (auto simp: sublist_Cons_right)

lemma trim_Nil: "trim [] = []"
  by (simp add: trim_def)

lemma trim_male: "trim ''male'' = ''male''"
  by (simp add: trim_def is_space_def)

lemma trim_blank: "trim [CHR 0xA0, CHR 0x20, CHR 0x09] = []"
  by (simp add: trim_def is_space_def)

lemma trim_all_space:
  assumes "\<forall>c\<in>set q. is_space c"
  shows "trim q = []"
proof -
  have d: "dropWhile is_space q = []"
    using assms by simp
  show ?thesis
    unfolding trim_def d by simp
qed

text \<open>A query is empty after trimming exactly when it consists of white space.\<close>

lemma trim_Nil_iff: "trim q = [] \<longleftrightarrow> (\<forall>c\<in>set q. is_space c)"
proof
  assume t: "trim q = []"
  show "\<forall>c\<in>set q. is_space c"
  proof (cases "dropWhile is_space q")
    case Nil
    then show ?thesis
      by simp
  next
    case (Cons c cs)
    then have nc: "\<not> is_space c"
      by (metis hd_dropWhile list.distinct(1) list.sel(1))
    from t have "\<forall>x\<in>set (rev (dropWhile is_space q)). is_space x"
      by (simp add: trim_def)
    then have "is_space c"
      using Cons by simp
    with nc show ?thesis
      by simp
  qed
next
  assume "\<forall>c\<in>set q. is_space c"
  then show "trim q = []"
    by (rule trim_all_space)
qed

lemma toLowerCase_latin1:
  "toLowerCase [CHR 0x41, CHR 0x5A, CHR 0xC0, CHR 0xC9, CHR 0xDE, CHR 0xD7, CHR 0xDF, CHR 0x61]
     = [CHR 0x61, CHR 0x7A, CHR 0xE0, CHR 0xE9, CHR 0xFE, CHR 0xD7, CHR 0xDF, CHR 0x61]"
  by code_simp


section \<open>The filter stage\<close>

lemma filterUsers_male: "filterUsers R ''male'' = filter (userMatches ''male'') R"
  by (simp add: filterUsers_def trim_male)

lemma count_list_filter_le: "count_list (filter P xs) u \<le> count_list xs u"
  by (induction xs) auto

text \<open>
  C1, as stated, fails: a record whose gender is \<open>female\<close> and whose e-mail address contains
  \<open>male\<close> is in the result of the query \<open>male\<close>.
\<close>

theorem filter_male_keeps_female_counterexample:
  "gender malena = ''female'' \<and> filterUsers [malena] ''male'' = [malena]"
  by (simp add: filterUsers_male userMatches_def sample_defs)

text \<open>
  C1, amended: the result of the query \<open>male\<close> holds a record whose gender is \<open>female\<close>
  exactly when the record is in the input and its first name, its last name, its full name,
  its e-mail address or its age in decimal contains \<open>male\<close>. The gender field never makes
  such a record match.
\<close>

theorem filter_male_female_by_other_fields:
  "u \<in> set (filterUsers R ''male'') \<and> gender u = ''female'' \<longleftrightarrow>
   u \<in> set R \<and> gender u = ''female'' \<and>
   (str_includes (first (name u)) ''male'' \<or>
    str_includes (last_name (name u)) ''male'' \<or>
    str_includes (first (name u) @ '' '' @ last_name (name u)) ''male'' \<or>
    str_includes (email u) ''male'' \<or>
    str_includes (toString (age (dob u))) ''male'')"
  by (auto simp: filterUsers_male userMatches_def)

theorem filter_male_female_by_other_fields_witness:
  "amy \<notin> set (filterUsers [amy, bo, malena] ''male'') \<and>
   malena \<in> set (filterUsers [amy, bo, malena] ''male'')"
proof -
  have a: "\<not> (str_includes (first (name amy)) ''male'' \<or>
    str_includes (last_name (name amy)) ''male'' \<or>
    str_includes (first (name amy) @ '' '' @ last_name (name amy)) ''male'' \<or>
    str_includes (email amy) ''male'' \<or>
    str_includes (toString (age (dob amy))) ''male'')"
    by code_simp
  have m: "str_includes (email malena) ''male''"
    by code_simp
  have g: "gender amy = ''female''" "gender malena = ''female''"
    by (simp_all add: sample_defs)
  show ?thesis
    using filter_male_female_by_other_fields [of amy "[amy, bo, malena]"]
      filter_male_female_by_other_fields [of malena "[amy, bo, malena]"] a m g
    by simp
qed

text \<open>
  C9: a query that is empty after trimming gives the input back unchanged: the empty query,
  every query that \<open>trim\<close> maps to the empty string, and so every query made of white space
  only (tab, line feed, vertical tab, form feed, carriage return, space, no-break space).
\<close>

theorem filterUsers_blank_query:
  "filterUsers R [] = R \<and>
   (trim q = [] \<longrightarrow> filterUsers R q = R) \<and>
   (set q \<subseteq> set [CHR 0x09, CHR 0x0A, CHR 0x0B, CHR 0x0C, CHR 0x0D, CHR 0x20, CHR 0xA0] \<longrightarrow>
      filterUsers R q = R)"
proof -
  have "trim q = []"
    if "set q \<subseteq> set [CHR 0x09, CHR 0x0A, CHR 0x0B, CHR 0x0C, CHR 0x0D, CHR 0x20, CHR 0xA0]"
    using that by (intro trim_all_space) (auto simp: is_space_def)
  then show ?thesis
    by (auto simp: filterUsers_def trim_def)
qed

theorem filterUsers_blank_query_witness:
  "trim [CHR 0xA0, CHR 0x20, CHR 0x09] = [] \<and>
   set [CHR 0xA0, CHR 0x20, CHR 0x09]
     \<subseteq> set [CHR 0x09, CHR 0x0A, CHR 0x0B, CHR 0x0C, CHR 0x0D, CHR 0x20, CHR 0xA0] \<and>
   filterUsers [amy, bo] [CHR 0xA0, CHR 0x20, CHR 0x09] = [amy, bo]"
  using filterUsers_blank_query [of "[amy, bo]" "[CHR 0xA0, CHR 0x20, CHR 0x09]"] trim_blank
  by simp

text \<open>
  C10: the result of \<open>filterUsers\<close> is a subsequence of its input: its records are records of
  the input, none more often than there, in the order of the input. Filtering the result
  again with the same query changes nothing.
\<close>

theorem filterUsers_subseq_idem:
  "subseq (filterUsers R q) R \<and>
   set (filterUsers R q) \<subseteq> set R \<and>
   (\<forall>u. count_list (filterUsers R q) u \<le> count_list R u) \<and>
   filterUsers (filterUsers R q) q = filterUsers R q"
  by (simp add: filterUsers_def Let_def count_list_filter_le)

theorem filterUsers_subseq_idem_witness:
  "filterUsers [amy, bo, malena] ''male'' = [bo, malena] \<and>
   subseq [bo, malena] [amy, bo, malena] \<and>
   filterUsers [bo, malena] ''male'' = [bo, malena]"
proof -
  have e: "filterUsers [amy, bo, malena] ''male'' = [bo, malena]"
    by code_simp
  show ?thesis
    using filterUsers_subseq_idem [of "[amy, bo, malena]" "''male''"]
    by (simp only: e simp_thms)
qed


section \<open>The sort stage\<close>

lemma js_lt_irrefl: "\<not> js_lt v v"
  by (cases v) simp_all

lemma compareUsers_equal_keys:
  "getSortValue a k = getSortValue b k \<Longrightarrow> compareUsers k d a b = 0"
  by (simp add: compareUsers_def js_lt_irrefl)

lemma compareUsers_Asc:
  "compareUsers k Asc a b \<le> 0 \<longleftrightarrow> key_le (getSortValue a k) (getSortValue b k)"
  by (cases k) (auto simp: compareUsers_def)

lemma compareUsers_Desc:
  "compareUsers k Desc a b \<le> 0 \<longleftrightarrow> key_le (getSortValue b k) (getSortValue a k)"
  by (cases k) (auto simp: compareUsers_def)


lemma key_le_trans:
  "key_le (getSortValue a k) (getSortValue b k) \<Longrightarrow>
   key_le (getSortValue b k) (getSortValue c k) \<Longrightarrow>
   key_le (getSortValue a k) (getSortValue c k)"
  by (cases k) auto

subsection \<open>The sort primitive\<close>

lemma array_sort_Nil: "array_sort cmp [] = []"
  by (simp add: array_sort_def)

lemma array_sort_Cons: "array_sort cmp (x # xs) = insert_by cmp x (array_sort cmp xs)"
  by (simp add: array_sort_def)

lemma set_insert_by: "set (insert_by cmp x ys) = insert x (set ys)"
  by (induction ys) auto

lemma set_array_sort: "set (array_sort cmp xs) = set xs"
  by (induction xs) (simp_all add: array_sort_Nil array_sort_Cons set_insert_by)



text \<open>An element outside a class of the comparator leaves the class as it is.\<close>

lemma filter_insert_by_other: "\<not> P x \<Longrightarrow> filter P (insert_by cmp x ys) = filter P ys"
  by (induction ys) auto

text \<open>An element of a class whose members all compare equal comes first in its class.\<close>

lemma filter_insert_by_same:
  assumes "P x" and "\<And>y. P y \<Longrightarrow> cmp x y \<le> 0"
  shows "filter P (insert_by cmp x ys) = x # filter P ys"
  using assms by (induction ys) auto

lemma array_sort_stable:
  assumes "\<And>x y. P x \<Longrightarrow> P y \<Longrightarrow> cmp x y \<le> 0"
  shows "filter P (array_sort cmp xs) = filter P xs"
proof (induction xs)
  case Nil
  show ?case
    by (simp add: array_sort_Nil)
next
  case (Cons x xs)
  show ?case
  proof (cases "P x")
    case True
    then have "filter P (insert_by cmp x (array_sort cmp xs)) = x # filter P (array_sort cmp xs)"
      using assms by (intro filter_insert_by_same) auto
    then show ?thesis
      using True Cons by (simp add: array_sort_Cons)
  next
    case False
    then show ?thesis
      using Cons by (simp add: array_sort_Cons filter_insert_by_other)
  qed
qed



subsection \<open>\<open>sortUsers\<close>\<close>

lemma sortUsers_null: "direction cfg = None \<Longrightarrow> sortUsers R cfg = R"
  by (simp add: sortUsers_def sortUsers_with_def)

lemma sortUsers_Some:
  "direction cfg = Some d \<Longrightarrow> sortUsers R cfg = array_sort (compareUsers (key cfg) d) R"
  by (simp add: sortUsers_def sortUsers_with_def)

lemma set_sortUsers: "set (sortUsers R cfg) = set R"
  by (cases "direction cfg") (simp_all add: sortUsers_null sortUsers_Some set_array_sort)





lemma sortUsers_name_example:
  "sortUsers [bo, amy, amy_poe] \<lparr>key = NameFirst, direction = Some Asc\<rparr> = [amy, amy_poe, bo]"
  by code_simp





lemma sortUsers_tie_example:
  "sortUsers [emile_small, bo, emile_capital] \<lparr>key = NameFirst, direction = Some Asc\<rparr>
     = [bo, emile_small, emile_capital]"
  by code_simp



text \<open>The second primitive orders by the comparator as well, and keeps the elements.\<close>

lemma set_insert_behind: "set (insert_behind cmp x ys) = insert x (set ys)"
  by (induction ys) auto

lemma length_insert_behind: "length (insert_behind cmp x ys) = Suc (length ys)"
  by (induction ys) auto

lemma sorted_insert_behind:
  assumes sign: "\<And>x y. 0 \<le> cmp x y \<Longrightarrow> cmp y x \<le> 0"
    and trans: "\<And>x y z. cmp x y \<le> 0 \<Longrightarrow> cmp y z \<le> 0 \<Longrightarrow> cmp x z \<le> 0"
    and "sorted_wrt (\<lambda>a b. cmp a b \<le> 0) ys"
  shows "sorted_wrt (\<lambda>a b. cmp a b \<le> 0) (insert_behind cmp x ys)"
  using assms(3)
proof (induction ys)
  case Nil
  show ?case
    by simp
next
  case (Cons y ys)
  show ?case
  proof (cases "cmp x y < 0")
    case True
    then have "cmp x y \<le> 0"
      by simp
    then have "\<forall>z\<in>set ys. cmp x z \<le> 0"
      using Cons.prems trans by auto
    then show ?thesis
      using True Cons.prems by simp
  next
    case False
    then have "cmp y x \<le> 0"
      using sign by simp
    then show ?thesis
      using False Cons by (auto simp: set_insert_behind)
  qed
qed

lemma compareUsers_sign: "0 \<le> compareUsers k d a b \<Longrightarrow> compareUsers k d b a \<le> 0"
  by (cases k; cases d) (auto simp: compareUsers_def split: if_splits)

lemma compareUsers_trans:
  "compareUsers k d a b \<le> 0 \<Longrightarrow> compareUsers k d b c \<le> 0 \<Longrightarrow> compareUsers k d a c \<le> 0"
  by (cases d) (auto simp: compareUsers_Asc compareUsers_Desc intro: key_le_trans)

lemma array_sort_unstable_orders:
  "sorted_wrt (\<lambda>a b. compareUsers k d a b \<le> 0) (array_sort_unstable (compareUsers k d) R) \<and>
   set (array_sort_unstable (compareUsers k d) R) = set R \<and>
   length (array_sort_unstable (compareUsers k d) R) = length R"
proof (induction R)
  case Nil
  show ?case
    by (simp add: array_sort_unstable_def)
next
  case (Cons u R)
  have step: "array_sort_unstable (compareUsers k d) (u # R)
      = insert_behind (compareUsers k d) u (array_sort_unstable (compareUsers k d) R)"
    by (simp add: array_sort_unstable_def)
  have "sorted_wrt (\<lambda>a b. compareUsers k d a b \<le> 0)
      (insert_behind (compareUsers k d) u (array_sort_unstable (compareUsers k d) R))"
    using Cons compareUsers_sign compareUsers_trans
    by (intro sorted_insert_behind) blast+
  then show ?case
    using Cons by (simp add: step set_insert_behind length_insert_behind)
qed

text \<open>
  C4, as stated, fails in its second half: the comparator answers \<open>0\<close> for two different
  records with the same derived key, so the order of the two is left to the sort primitive,
  and a primitive that orders by the comparator without being stable turns them round.
\<close>

theorem sortUsers_ties_left_to_primitive_counterexample:
  "amy \<noteq> amy_poe \<and>
   compareUsers NameFirst Asc amy amy_poe = 0 \<and>
   sortUsers_with array_sort_unstable [amy, amy_poe] \<lparr>key = NameFirst, direction = Some Asc\<rparr>
     = [amy_poe, amy]"
  by (simp add: sortUsers_with_def array_sort_unstable_def compareUsers_def js_lt_irrefl
      toLowerCase_def sample_defs)

text \<open>
  C4, amended: with the stable \<open>Array.prototype.sort\<close> of ECMAScript 2019 the sort is stable:
  for every list, key and direction, the records with one derived key (one first name, one
  gender or one e-mail address in lower case, or one age) stand in the output in the order
  they have in the input. The stability is that of the primitive; the comparator does not
  break ties.
\<close>

theorem sortUsers_stable:
  "filter (\<lambda>u. getSortValue u (key cfg) = v) (sortUsers R cfg)
     = filter (\<lambda>u. getSortValue u (key cfg) = v) R \<and>
   filter (\<lambda>u. toLowerCase (first (name u)) = w) (sortUsers R \<lparr>key = NameFirst, direction = d\<rparr>)
     = filter (\<lambda>u. toLowerCase (first (name u)) = w) R \<and>
   filter (\<lambda>u. toLowerCase (gender u) = w) (sortUsers R \<lparr>key = Gender, direction = d\<rparr>)
     = filter (\<lambda>u. toLowerCase (gender u) = w) R \<and>
   filter (\<lambda>u. toLowerCase (email u) = w) (sortUsers R \<lparr>key = Email, direction = d\<rparr>)
     = filter (\<lambda>u. toLowerCase (email u) = w) R \<and>
   filter (\<lambda>u. age (dob u) = n) (sortUsers R \<lparr>key = DobAge, direction = d\<rparr>)
     = filter (\<lambda>u. age (dob u) = n) R"
proof -
  have general: "filter (\<lambda>u. getSortValue u (key c) = x) (sortUsers R c)
      = filter (\<lambda>u. getSortValue u (key c) = x) R" for c :: "SortDirection option SortConfig" and x
  proof (cases "direction c")
    case None
    then show ?thesis
      by (simp add: sortUsers_null)
  next
    case (Some d')
    have "filter (\<lambda>u. getSortValue u (key c) = x) (array_sort (compareUsers (key c) d') R)
        = filter (\<lambda>u. getSortValue u (key c) = x) R"
      by (rule array_sort_stable) (simp add: compareUsers_equal_keys)
    then show ?thesis
      using Some by (simp add: sortUsers_Some)
  qed
  show ?thesis
    using general [of cfg v]
      general [of "\<lparr>key = NameFirst, direction = d\<rparr>" "Str w"]
      general [of "\<lparr>key = Gender, direction = d\<rparr>" "Str w"]
      general [of "\<lparr>key = Email, direction = d\<rparr>" "Str w"]
      general [of "\<lparr>key = DobAge, direction = d\<rparr>" "Num n"]
    by simp
qed

theorem sortUsers_stable_witness:
  "sortUsers [emile_small, bo, emile_capital] \<lparr>key = NameFirst, direction = Some Asc\<rparr>
     = [bo, emile_small, emile_capital] \<and>
   filter (\<lambda>u. toLowerCase (first (name u)) = CHR 0xE9 # ''mile'')
     [bo, emile_small, emile_capital] = [emile_small, emile_capital]"
proof -
  have e: "filter (\<lambda>u. toLowerCase (first (name u)) = CHR 0xE9 # ''mile'')
      [emile_small, bo, emile_capital] = [emile_small, emile_capital]"
    by code_simp
  show ?thesis
    using sortUsers_stable [where R = "[emile_small, bo, emile_capital]" and d = "Some Asc"
        and w = "CHR 0xE9 # ''mile''"]
    by (simp only: sortUsers_tie_example e simp_thms)
qed


section \<open>The pagination stage\<close>

lemma js_slice_nonneg:
  assumes "0 \<le> a" and "0 \<le> n"
  shows "js_slice xs a (a + n) = take (nat n) (drop (nat a) xs)"
proof (cases "a < int (length xs)")
  case True
  have "nat (max (min (a + n) (int (length xs)) - a) 0) = min (nat n) (length xs - nat a)"
    using assms True by linarith
  moreover have "take (min (nat n) (length xs - nat a)) (drop (nat a) xs)
      = take (nat n) (drop (nat a) xs)"
    by (simp add: min_def)
  ultimately show ?thesis
    using assms True by (simp add: js_slice_def Let_def)
next
  case False
  then show ?thesis
    using assms by (simp add: js_slice_def Let_def)
qed

lemma slice_start_nonneg: "1 \<le> page \<Longrightarrow> 0 \<le> pageSize \<Longrightarrow> 0 \<le> slice_start page pageSize"
  by (simp add: slice_start_def)

lemma paginateData_nat: "paginateData xs (int (Suc p)) (int s) = take s (drop (p * s) xs)"
proof -
  have "slice_start (int (Suc p)) (int s) = int (p * s)"
    by (simp add: slice_start_def)
  then show ?thesis
    using js_slice_nonneg [of "int (p * s)" "int s" xs]
    by (simp add: paginateData_def Let_def nat_mult_distrib)
qed

lemma concat_pages: "concat (map (\<lambda>p. take s (drop (p * s) xs)) [0..<n]) = take (n * s) xs"
proof (induction n)
  case 0
  then show ?case
    by simp
next
  case (Suc n)
  have "Suc n * s = n * s + s"
    by simp
  then have "take (Suc n * s) xs = take (n * s) xs @ take s (drop (n * s) xs)"
    by (simp only: take_add)
  then show ?case
    using Suc by simp
qed

lemma totalPages_covers:
  assumes "0 < s"
  shows "n \<le> totalPages n s * s"
proof -
  have "real n / real s \<le> of_int \<lceil>real n / real s\<rceil>"
    by simp
  then have "real n \<le> of_int \<lceil>real n / real s\<rceil> * real s"
    using assms by (simp only: pos_divide_le_eq of_nat_0_less_iff)
  moreover have "0 \<le> \<lceil>real n / real s\<rceil>"
  proof -
    have "(0::real) \<le> real n / real s"
      by simp
    then have "\<lceil>0::real\<rceil> \<le> \<lceil>real n / real s\<rceil>"
      by (rule ceiling_mono)
    then show ?thesis
      by simp
  qed
  ultimately have "real n \<le> real (totalPages n s * s)"
    by (simp add: totalPages_def)
  then show ?thesis
    by linarith
qed

text \<open>
  C5, as stated, fails: nothing clamps the page. Page \<open>-1\<close> with page size \<open>5\<close> gives the
  slice start \<open>-10\<close>, which \<open>slice\<close> counts from the end of the list, so that twelve records
  give the five at the indices 2 to 6; and a negative page size gives a negative slice end,
  so that page \<open>1\<close> with page size \<open>-5\<close> gives the first seven of twelve records.
\<close>

theorem paginateData_negative_start_counterexample:
  "slice_start (- 1) 5 = - 10 \<and>
   paginateData twelve (- 1) 5 = [2, 3, 4, 5, 6] \<and>
   paginateData twelve 1 (- 5) = [0, 1, 2, 3, 4, 5, 6]"
  by (simp add: paginateData_def slice_start_def js_slice_def twelve_def)

text \<open>
  C5, amended: for every list, every page number from \<open>1\<close> on and every page size that is
  not negative, \<open>paginateData\<close> returns the contiguous slice from \<open>(page - 1) * pageSize\<close> to
  \<open>page * pageSize\<close>, with as many records as exist in that range (none when the range lies
  behind the end of the list); it never raises an error. The stage does not clamp.
\<close>

theorem paginateData_slice:
  assumes "1 \<le> page" and "0 \<le> pageSize"
  shows "paginateData data page pageSize
           = take (nat pageSize) (drop (nat ((page - 1) * pageSize)) data) \<and>
         length (paginateData data page pageSize)
           = min (nat pageSize) (length data - nat ((page - 1) * pageSize))"
  using js_slice_nonneg [OF slice_start_nonneg [OF assms] assms(2), of data]
  by (simp add: paginateData_def Let_def slice_start_def)

theorem paginateData_slice_witness:
  "(1::int) \<le> 3 \<and> (0::int) \<le> 5 \<and>
   paginateData twelve 3 5 = [10, 11] \<and> paginateData twelve 4 5 = []"
  using paginateData_slice [of 3 5 twelve] paginateData_slice [of 4 5 twelve]
  by (simp add: twelve_def)

text \<open>
  C8: for a positive page size \<open>s\<close>, the pages \<open>1\<close> to \<open>ceil(length R / s)\<close> of a list \<open>R\<close>, one
  after the other, are the list \<open>R\<close>: nothing twice, nothing left out.
\<close>

theorem pagination_coverage:
  assumes "0 < s"
  shows "concat (map (\<lambda>p. paginateData R (int p) (int s)) [1..<Suc (totalPages (length R) s)])
           = R"
proof -
  let ?n = "totalPages (length R) s"
  have "[1..<Suc ?n] = map Suc [0..<?n]"
    by (simp only: map_Suc_upt One_nat_def)
  then have "map (\<lambda>p. paginateData R (int p) (int s)) [1..<Suc ?n]
      = map (\<lambda>p. take s (drop (p * s) R)) [0..<?n]"
    by (simp only: map_map o_def paginateData_nat)
  then have "concat (map (\<lambda>p. paginateData R (int p) (int s)) [1..<Suc ?n]) = take (?n * s) R"
    by (simp only: concat_pages)
  also have "\<dots> = R"
    using totalPages_covers [OF assms, of "length R"] by simp
  finally show ?thesis .
qed

theorem pagination_coverage_witness:
  "totalPages (length twelve) 5 = 3 \<and>
   concat [paginateData twelve 1 5, paginateData twelve 2 5, paginateData twelve 3 5] = twelve"
  using pagination_coverage [of 5 twelve]
  by (simp add: totalPages_def upt_rec twelve_def)


section \<open>The view state\<close>

lemma timer_consistent_initial: "timer_consistent initialView"
  by (simp add: timer_consistent_def initialView_def)

lemma timer_consistent_step: "timer_consistent s \<Longrightarrow> timer_consistent (apply_event s e)"
  by (cases e)
    (auto simp: timer_consistent_def setQuery_def debounceElapsed_def handleSort_def
      previousPage_def nextPage_def split: option.splits)

lemma timer_consistent_foldl:
  "timer_consistent s \<Longrightarrow> timer_consistent (foldl apply_event s evs)"
  by (induction evs arbitrary: s) (simp_all add: timer_consistent_step)

lemma timer_consistent_run: "timer_consistent (run_view evs)"
  by (simp add: run_view_def timer_consistent_foldl timer_consistent_initial)

text \<open>
  C3, as stated, fails on both counts. On page \<open>3\<close>, \<open>setQuery\<close> puts the page back to \<open>1\<close>
  itself; and when the user has gone to page \<open>3\<close> within the quiet period, the elapsed timer
  commits the query and leaves the page at \<open>3\<close>.
\<close>

theorem setQuery_resets_page_counterexample:
  "currentPage (run_view [NextPage 8, NextPage 8]) = 3 \<and>
   currentPage (run_view [NextPage 8, NextPage 8, SetQuery ''a'']) = 1 \<and>
   currentPage (run_view [SetQuery ''a'', NextPage 8, NextPage 8]) = 3 \<and>
   currentPage (run_view [SetQuery ''a'', NextPage 8, NextPage 8, DebounceElapsed]) = 3 \<and>
   debouncedQuery (run_view [SetQuery ''a'', NextPage 8, NextPage 8, DebounceElapsed]) = ''a''"
  by (simp add: run_view_def setQuery_def debounceElapsed_def nextPage_def initialView_def)

text \<open>
  C3, amended: \<open>setQuery(newQuery)\<close> sets the query and resets the page to \<open>1\<close> in the same
  step, and leaves the debounced query and the sort configuration as they are; when the
  debounce timer elapses, the query is copied into the debounced query, and when that
  happens right after the \<open>setQuery\<close> that started the timer, the page is \<open>1\<close>.
\<close>

theorem setQuery_and_debounce:
  "searchQuery (setQuery q s) = q \<and>
   currentPage (setQuery q s) = 1 \<and>
   debouncedQuery (setQuery q s) = debouncedQuery s \<and>
   sortConfig (setQuery q s) = sortConfig s \<and>
   (q \<noteq> searchQuery s \<longrightarrow> timer (setQuery q s) = Some q) \<and>
   (timer_consistent s \<and> timer s \<noteq> None \<longrightarrow>
      debouncedQuery (debounceElapsed s) = searchQuery s \<and>
      searchQuery (debounceElapsed s) = searchQuery s \<and>
      sortConfig (debounceElapsed s) = sortConfig s) \<and>
   (q \<noteq> searchQuery s \<longrightarrow>
      debouncedQuery (debounceElapsed (setQuery q s)) = q \<and>
      currentPage (debounceElapsed (setQuery q s)) = 1)"
  by (auto simp: setQuery_def debounceElapsed_def timer_consistent_def)

theorem setQuery_and_debounce_witness:
  "''a'' \<noteq> searchQuery initialView \<and>
   currentPage (setQuery ''a'' (run_view [NextPage 8, NextPage 8])) = 1 \<and>
   timer_consistent (setQuery ''a'' initialView) \<and>
   timer (setQuery ''a'' initialView) = Some ''a'' \<and>
   debouncedQuery (debounceElapsed (setQuery ''a'' initialView)) = ''a'' \<and>
   currentPage (debounceElapsed (setQuery ''a'' initialView)) = 1"
  using setQuery_and_debounce [of "''a''" initialView]
    setQuery_and_debounce [of "''a''" "run_view [NextPage 8, NextPage 8]"]
    timer_consistent_step [OF timer_consistent_initial, of "SetQuery ''a''"]
  by (simp add: initialView_def)

text \<open>
  C6: \<open>setSort(key)\<close> with the current sort key turns an ascending direction into a descending
  one and a descending one into an ascending one; with another key it sets that key and the
  ascending direction; in every case the page becomes \<open>1\<close>.
\<close>

theorem handleSort_toggle:
  "(key (sortConfig s) = k \<and> direction (sortConfig s) = Asc \<longrightarrow>
      sortConfig (handleSort k s) = \<lparr>key = k, direction = Desc\<rparr>) \<and>
   (key (sortConfig s) = k \<and> direction (sortConfig s) = Desc \<longrightarrow>
      sortConfig (handleSort k s) = \<lparr>key = k, direction = Asc\<rparr>) \<and>
   (key (sortConfig s) \<noteq> k \<longrightarrow>
      sortConfig (handleSort k s) = \<lparr>key = k, direction = Asc\<rparr>) \<and>
   currentPage (handleSort k s) = 1"
  by (simp add: handleSort_def)

theorem handleSort_toggle_witness:
  "sortConfig (handleSort NameFirst initialView) = \<lparr>key = NameFirst, direction = Desc\<rparr> \<and>
   sortConfig (handleSort NameFirst (handleSort NameFirst initialView))
     = \<lparr>key = NameFirst, direction = Asc\<rparr> \<and>
   sortConfig (handleSort Email (handleSort NameFirst initialView))
     = \<lparr>key = Email, direction = Asc\<rparr> \<and>
   currentPage (handleSort Email (run_view [NextPage 8])) = 1"
proof -
  have a: "sortConfig initialView = \<lparr>key = NameFirst, direction = Asc\<rparr>"
    by (simp add: initialView_def)
  have b: "sortConfig (handleSort NameFirst initialView) = \<lparr>key = NameFirst, direction = Desc\<rparr>"
    using handleSort_toggle [of initialView NameFirst] a by simp
  have c: "sortConfig (handleSort NameFirst (handleSort NameFirst initialView))
      = \<lparr>key = NameFirst, direction = Asc\<rparr>"
    using handleSort_toggle [of "handleSort NameFirst initialView" NameFirst] b by simp
  have d: "sortConfig (handleSort Email (handleSort NameFirst initialView))
      = \<lparr>key = Email, direction = Asc\<rparr>"
    using handleSort_toggle [of "handleSort NameFirst initialView" Email] b by simp
  have e: "currentPage (handleSort Email (run_view [NextPage 8])) = 1"
    using handleSort_toggle [of "run_view [NextPage 8]" Email] by simp
  show ?thesis
    using b c d e by simp
qed


section \<open>The fetch coordinator\<close>

lemma fetchUsers_success:
  "fetchUsers (FetchResolved True (JsonResolved rs)) s = s\<lparr>users := rs, loading := False\<rparr>"
  by (simp add: fetchUsers_def fetchUsers_try_def fetchUsers_finally_def)

lemma fetchUsers_bad_status:
  "fetchUsers (FetchResolved False body) s
     = s\<lparr>error := Some ''Failed to fetch data'', loading := False\<rparr>"
  by (simp add: fetchUsers_def fetchUsers_try_def fetchUsers_finally_def)

lemma fetchUsers_catch_abort: "fetchUsers_catch abortError s = s"
  by (simp add: abortError_def)

text \<open>
  C2: the code does not do what the claim says. When the pending \<open>fetch\<close> is aborted, the
  \<open>catch\<close> block returns without an update, but the \<open>finally\<close> block still runs: the attempt
  sets \<open>loading\<close> from true to false.
\<close>

theorem fetchUsers_abort_clears_loading:
  "loading initialFetch \<and>
   fetchUsers (FetchRejected abortError) initialFetch = initialFetch\<lparr>loading := False\<rparr> \<and>
   fetchUsers (FetchRejected abortError) initialFetch \<noteq> initialFetch"
  by (simp add: fetchUsers_def fetchUsers_try_def fetchUsers_finally_def abortError_def
      initialFetch_def)

end
